theory Spec2Isabelle
  imports Main "HOL-Library.Sublist"
begin

section \<open>The book catalogue: in-memory REST service and React client\<close>

text \<open>
  The development embeds the four request handlers of \<^verbatim>\<open>server.js\<close> and the
  state-changing functions of \<^verbatim>\<open>BooksApp.jsx\<close> (\<^verbatim>\<open>filtered\<close>,
  \<^verbatim>\<open>createBook\<close>, \<^verbatim>\<open>updateBook\<close>, \<^verbatim>\<open>removeBook\<close>,
  \<^verbatim>\<open>validateForm\<close>, \<^verbatim>\<open>submitForm\<close>).
\<close>

subsection \<open>Data model of the service\<close>

text \<open>
  A book is \<^verbatim>\<open>{ id, title, author }\<close>. The service never inspects title and author
  (they are whatever JSON values the request body holds, possibly \<^verbatim>\<open>undefined\<close>),
  so their type is a parameter. Every id the service stores is an integer: the literals
  1 and 2, the value of \<^verbatim>\<open>Date.now()\<close>, or \<^verbatim>\<open>Number(id)\<close> in the branch of the
  PUT handler where it has compared equal to a stored id.
\<close>

record 'v book =
  book_id :: int
  title :: 'v
  author :: 'v

text \<open>
  \<^verbatim>\<open>req.params.id\<close> is a string. Both places that read it convert it to a number
  first: \<^verbatim>\<open>b.id == id\<close> (loose equality of a number and a string) and
  \<^verbatim>\<open>Number(id)\<close>. The parameter is therefore represented by its numeric value:
  \<open>Integer n\<close> when the conversion yields the integer \<open>n\<close>, and \<open>NotAnInteger\<close>
  when it yields \<^verbatim>\<open>NaN\<close>, an infinity or a fraction, none of which is equal to
  any integer.
\<close>

datatype url_id = Integer int | NotAnInteger

fun loose_eq :: "int \<Rightarrow> url_id \<Rightarrow> bool" where
  "loose_eq n (Integer m) = (n = m)"
| "loose_eq n NotAnInteger = False"

datatype 'v body =
    Books "'v book list"
  | BookBody "'v book"
  | Message string

datatype 'v response = Response (status: nat) (resp_body: "'v body")

text \<open>\<^verbatim>\<open>let books = [ ... ]\<close>, the collection a fresh process starts with.\<close>

definition initial_books :: "string book list" where
  "initial_books =
     [\<lparr>book_id = 1, title = ''The Hobbit'', author = ''J.R.R. Tolkien''\<rparr>,
      \<lparr>book_id = 2, title = ''1984'', author = ''George Orwell''\<rparr>]"

text \<open>\<^verbatim>\<open>Array.prototype.findIndex\<close>: the first index whose element satisfies the
  predicate; the result \<^verbatim>\<open>-1\<close> is \<open>None\<close>.\<close>

fun findIndex :: "('a \<Rightarrow> bool) \<Rightarrow> 'a list \<Rightarrow> nat option" where
  "findIndex P [] = None"
| "findIndex P (x # xs) = (if P x then Some 0 else map_option Suc (findIndex P xs))"

text \<open>\<^verbatim>\<open>Array.prototype.filter\<close>: a left-to-right pass that keeps the elements
  satisfying the predicate.\<close>

fun filter_js :: "('a \<Rightarrow> bool) \<Rightarrow> 'a list \<Rightarrow> 'a list" where
  "filter_js P [] = []"
| "filter_js P (x # xs) = (if P x then x # filter_js P xs else filter_js P xs)"

subsection \<open>The request handlers\<close>

text \<open>Each handler takes the collection and returns the collection after the request
  together with the response.\<close>

definition get_books :: "'v book list \<Rightarrow> 'v book list \<times> 'v response" where
  "get_books books = (books, Response 200 (Books books))"

text \<open>The first argument is the value \<^verbatim>\<open>Date.now()\<close> returns during the request.\<close>

definition post_books :: "int \<Rightarrow> 'v \<Rightarrow> 'v \<Rightarrow> 'v book list \<Rightarrow> 'v book list \<times> 'v response" where
  "post_books now t a books =
     (let newBook = \<lparr>book_id = now, title = t, author = a\<rparr>
      in (books @ [newBook], Response 201 (BookBody newBook)))"

text \<open>When the parameter is not an integer, \<^verbatim>\<open>b.id == id\<close> is false for every
  record, so \<^verbatim>\<open>findIndex\<close> yields \<^verbatim>\<open>-1\<close>; otherwise \<^verbatim>\<open>Number(id)\<close> is that
  integer.\<close>

definition put_books :: "url_id \<Rightarrow> 'v \<Rightarrow> 'v \<Rightarrow> 'v book list \<Rightarrow> 'v book list \<times> 'v response" where
  "put_books p t a books =
     (case p of
        NotAnInteger \<Rightarrow> (books, Response 404 (Message ''Book not found''))
      | Integer n \<Rightarrow>
          (case findIndex (\<lambda>b. loose_eq (book_id b) p) books of
             Some bookIndex \<Rightarrow>
               (let books' = books[bookIndex := \<lparr>book_id = n, title = t, author = a\<rparr>]
                in (books', Response 200 (BookBody (books' ! bookIndex))))
           | None \<Rightarrow> (books, Response 404 (Message ''Book not found''))))"

definition delete_books :: "url_id \<Rightarrow> 'v book list \<Rightarrow> 'v book list \<times> 'v response" where
  "delete_books p books =
     (filter_js (\<lambda>b. \<not> loose_eq (book_id b) p) books, Response 200 (Message ''Book deleted''))"

subsection \<open>Sequences of requests\<close>

datatype 'v op =
    List
  | Create int 'v 'v
  | Update url_id 'v 'v
  | Delete url_id

fun handle :: "'v op \<Rightarrow> 'v book list \<Rightarrow> 'v book list \<times> 'v response" where
  "handle List books = get_books books"
| "handle (Create now t a) books = post_books now t a books"
| "handle (Update p t a) books = put_books p t a books"
| "handle (Delete p) books = delete_books p books"

fun run :: "'v op list \<Rightarrow> 'v book list \<Rightarrow> 'v book list" where
  "run [] books = books"
| "run (x # xs) books = run xs (fst (handle x books))"

text \<open>A request sequence has a fresh clock when every POST is served at a time value
  that is not the id of a record stored at that moment.\<close>

fun fresh_clock :: "'v op list \<Rightarrow> 'v book list \<Rightarrow> bool" where
  "fresh_clock [] books = True"
| "fresh_clock (Create now t a # xs) books =
     (now \<notin> set (map book_id books) \<and> fresh_clock xs (fst (handle (Create now t a) books)))"
| "fresh_clock (x # xs) books = fresh_clock xs (fst (handle x books))"

subsection \<open>Strings of the client\<close>

text \<open>
  A JavaScript string is a sequence of UTF-16 code units. The model covers the strings
  whose code units lie in U+0000..U+00FF, one \<^typ>\<open>char\<close> per code unit, with the
  case mapping and the white space of that range; \<^verbatim>\<open>length\<close> counts code units.
\<close>

text \<open>\<^verbatim>\<open>String.prototype.toLowerCase\<close>: A..Z and the capital letters
  U+00C0..U+00DE (without the multiplication sign U+00D7) move up by 32.\<close>

definition lower_char :: "char \<Rightarrow> char" where
  "lower_char c =
     (let n = (of_char c :: nat)
      in if (65 \<le> n \<and> n \<le> 90) \<or> (192 \<le> n \<and> n \<le> 222 \<and> n \<noteq> 215)
         then char_of (n + 32) else c)"

definition toLowerCase :: "string \<Rightarrow> string" where
  "toLowerCase s = map lower_char s"

text \<open>White space and line terminators below U+0100: TAB, LF, VT, FF, CR, SP, NBSP.\<close>

definition white_space :: "char \<Rightarrow> bool" where
  "white_space c = ((of_char c :: nat) \<in> {9, 10, 11, 12, 13, 32, 160})"

text \<open>\<^verbatim>\<open>String.prototype.trim\<close>\<close>

definition trim :: "string \<Rightarrow> string" where
  "trim s = rev (dropWhile white_space (rev (dropWhile white_space s)))"

text \<open>\<^verbatim>\<open>s.includes(q)\<close>: \<open>q\<close> occurs in \<open>s\<close> as a contiguous run.\<close>

fun includes_js :: "string \<Rightarrow> string \<Rightarrow> bool" where
  "includes_js [] q = (q = [])"
| "includes_js (c # cs) q = (prefix q (c # cs) \<or> includes_js cs q)"

text \<open>\<^verbatim>\<open>s.split(sep)\<close> for a separator of one code unit.\<close>

fun split_js :: "char \<Rightarrow> string \<Rightarrow> string list" where
  "split_js sep [] = [[]]"
| "split_js sep (c # cs) =
     (if c = sep then [] # split_js sep cs
      else (case split_js sep cs of
              [] \<Rightarrow> [[c]]
            | w # ws \<Rightarrow> (c # w) # ws))"

text \<open>\<^verbatim>\<open>const [fld, dir] = sortBy.split('-')\<close>; a missing second part is
  \<^verbatim>\<open>undefined\<close>, here \<open>None\<close>.\<close>

definition fld_dir :: "string \<Rightarrow> string \<times> string option" where
  "fld_dir sortBy =
     (case split_js CHR ''-'' sortBy of
        [] \<Rightarrow> ([], None)
      | [f] \<Rightarrow> (f, None)
      | f # d # _ \<Rightarrow> (f, Some d))"

subsection \<open>Search and sort in the client\<close>

text \<open>
  \<^verbatim>\<open>String.prototype.localeCompare\<close> is the collation of the browser's locale and
  is not part of the repository; it is a parameter of the model. It returns a negative
  number, zero or a positive number.
\<close>

type_synonym collation = "string \<Rightarrow> string \<Rightarrow> int"

text \<open>The comparison function handed to \<^verbatim>\<open>arr.sort\<close>.\<close>

definition compare_books ::
  "collation \<Rightarrow> string \<Rightarrow> string option \<Rightarrow> string book \<Rightarrow> string book \<Rightarrow> int" where
  "compare_books localeCompare fld dir a b =
     (if fld = ''title'' then
        (if dir = Some ''asc'' then localeCompare (title a) (title b)
         else localeCompare (title b) (title a))
      else if fld = ''author'' then
        (if dir = Some ''asc'' then localeCompare (author a) (author b)
         else localeCompare (author b) (author a))
      else
        (if dir = Some ''asc'' then book_id a - book_id b else book_id b - book_id a))"

text \<open>
  \<^verbatim>\<open>Array.prototype.sort\<close> is a stable sort: for a consistent comparison function
  the result is ordered by it and elements that compare equal keep their order. Stable
  insertion is the reference implementation of that contract.
\<close>

fun insert_js :: "('a \<Rightarrow> 'a \<Rightarrow> int) \<Rightarrow> 'a \<Rightarrow> 'a list \<Rightarrow> 'a list" where
  "insert_js cmp x [] = [x]"
| "insert_js cmp x (y # ys) = (if cmp x y \<le> 0 then x # y # ys else y # insert_js cmp x ys)"

fun sort_js :: "('a \<Rightarrow> 'a \<Rightarrow> int) \<Rightarrow> 'a list \<Rightarrow> 'a list" where
  "sort_js cmp [] = []"
| "sort_js cmp (x # xs) = insert_js cmp x (sort_js cmp xs)"

text \<open>One collation, for concrete evaluation: the order of the code units.\<close>

fun code_unit_order :: collation where
  "code_unit_order [] [] = 0"
| "code_unit_order [] (y # ys) = - 1"
| "code_unit_order (x # xs) [] = 1"
| "code_unit_order (x # xs) (y # ys) =
     (if (of_char x :: nat) < of_char y then - 1
      else if (of_char y :: nat) < of_char x then 1
      else code_unit_order xs ys)"

text \<open>The consistency the language asks of a comparison function, as far as the
  ordering of the result depends on it.\<close>

definition consistent :: "('a \<Rightarrow> 'a \<Rightarrow> int) \<Rightarrow> bool" where
  "consistent cmp \<longleftrightarrow>
     (\<forall>a b. cmp a b < 0 \<longleftrightarrow> 0 < cmp b a) \<and>
     (\<forall>a b c. cmp a b \<le> 0 \<and> cmp b c \<le> 0 \<longrightarrow> cmp a c \<le> 0)"

text \<open>The memoised value \<^verbatim>\<open>filtered\<close>, as a function of the mirror, the query and
  the sort key.\<close>

definition filtered :: "collation \<Rightarrow> string \<Rightarrow> string \<Rightarrow> string book list \<Rightarrow> string book list" where
  "filtered localeCompare query sortBy books =
     (let q = toLowerCase (trim query);
          arr = (if q \<noteq> []
                 then filter_js (\<lambda>b. includes_js (toLowerCase (title b)) q
                                    \<or> includes_js (toLowerCase (author b)) q) books
                 else books);
          (fld, dir) = fld_dir sortBy
      in sort_js (compare_books localeCompare fld dir) arr)"

subsection \<open>State of the client and its requests\<close>

datatype toast_type = Success | Error

record toast =
  toast_type :: toast_type
  message :: string

text \<open>The form draft \<^verbatim>\<open>{ title, author }\<close>; the body of a POST has the same shape.\<close>

record draft =
  draft_title :: string
  draft_author :: string

record form_errors =
  title_error :: "string option"
  author_error :: "string option"

text \<open>A call of \<^verbatim>\<open>fetch\<close>: method, record id in the URL, JSON body.\<close>

datatype request =
    POST draft
  | PUT int "string book"
  | DELETE int

text \<open>
  What a call of \<^verbatim>\<open>fetch\<close> comes back with: the promise rejects with an error (its
  message), or it resolves to a response with its \<^verbatim>\<open>ok\<close> flag and the outcome of
  \<^verbatim>\<open>res.json()\<close>, which is an error message or the decoded body.
\<close>

datatype 'b fetch_result =
    Rejected string
  | Resolved bool "string + 'b"

text \<open>The part of the component state that the modelled functions read or write;
  \<open>sent\<close> logs the calls of \<^verbatim>\<open>fetch\<close>.\<close>

record client =
  books :: "string book list"
  toast :: "toast option"
  form :: draft
  formErrors :: form_errors
  isFormOpen :: bool
  editingBook :: "string book option"
  sent :: "request list"

text \<open>The initial values of the \<^verbatim>\<open>useState\<close> calls; nothing has been sent.\<close>

definition initial_client :: client where
  "initial_client =
     \<lparr>books = [], toast = None,
      form = \<lparr>draft_title = [], draft_author = []\<rparr>,
      formErrors = \<lparr>title_error = None, author_error = None\<rparr>,
      isFormOpen = False, editingBook = None, sent = []\<rparr>"

text \<open>
  A request fails when the fetch is rejected or the response is not ok; where the body
  is decoded (create and update), also when decoding it throws.
\<close>

fun failed :: "'b fetch_result \<Rightarrow> bool" where
  "failed (Rejected err) = True"
| "failed (Resolved ok json) = (\<not> ok)"

fun failed_json :: "'b fetch_result \<Rightarrow> bool" where
  "failed_json (Rejected err) = True"
| "failed_json (Resolved ok json) = (\<not> ok \<or> isl json)"

text \<open>\<^verbatim>\<open>err.message || fallback\<close>\<close>

definition or_default :: "string \<Rightarrow> string \<Rightarrow> string" where
  "or_default m fallback = (if m = [] then fallback else m)"

text \<open>The \<^verbatim>\<open>try\<close> block up to the decoded body: a rejected fetch, a response that
  is not ok and a body that does not decode all throw.\<close>

definition awaited_json :: "string \<Rightarrow> 'b fetch_result \<Rightarrow> string + 'b" where
  "awaited_json not_ok r =
     (case r of
        Rejected err \<Rightarrow> Inl err
      | Resolved ok json \<Rightarrow> (if \<not> ok then Inl not_ok else json))"

definition createBook ::
  "draft \<Rightarrow> string book fetch_result \<Rightarrow> client \<Rightarrow> client \<times> (string + string book)" where
  "createBook payload r st =
     (let st1 = st\<lparr>sent := sent st @ [POST payload]\<rparr>
      in case awaited_json ''Failed to create book'' r of
           Inr created \<Rightarrow>
             (st1\<lparr>books := books st1 @ [created],
                  toast := Some \<lparr>toast_type = Success, message = ''Book added''\<rparr>\<rparr>,
              Inr created)
         | Inl err \<Rightarrow>
             (st1\<lparr>toast := Some \<lparr>toast_type = Error, message = or_default err ''Failed to add''\<rparr>\<rparr>,
              Inl err))"

definition updateBook ::
  "string book \<Rightarrow> string book fetch_result \<Rightarrow> client \<Rightarrow> client \<times> (string + string book)" where
  "updateBook payload r st =
     (let st1 = st\<lparr>sent := sent st @ [PUT (book_id payload) payload]\<rparr>
      in case awaited_json ''Failed to update book'' r of
           Inr updated \<Rightarrow>
             (st1\<lparr>books := map (\<lambda>b. if book_id b = book_id updated then updated else b) (books st1),
                  toast := Some \<lparr>toast_type = Success, message = ''Book updated''\<rparr>\<rparr>,
              Inr updated)
         | Inl err \<Rightarrow>
             (st1\<lparr>toast := Some \<lparr>toast_type = Error, message = or_default err ''Failed to update''\<rparr>\<rparr>,
              Inl err))"

text \<open>\<^verbatim>\<open>removeBook\<close> never reads the body of the response.\<close>

definition removeBook :: "int \<Rightarrow> 'b fetch_result \<Rightarrow> client \<Rightarrow> client \<times> (string + unit)" where
  "removeBook i r st =
     (let st1 = st\<lparr>sent := sent st @ [DELETE i]\<rparr>;
          attempt = (case r of
                       Rejected err \<Rightarrow> Inl err
                     | Resolved ok json \<Rightarrow> (if \<not> ok then Inl ''Failed to delete'' else Inr ()))
      in case attempt of
           Inr u \<Rightarrow>
             (st1\<lparr>books := filter_js (\<lambda>b. book_id b \<noteq> i) (books st1),
                  toast := Some \<lparr>toast_type = Success, message = ''Book deleted''\<rparr>\<rparr>,
              Inr ())
         | Inl err \<Rightarrow>
             (st1\<lparr>toast := Some \<lparr>toast_type = Error, message = or_default err ''Failed to delete''\<rparr>\<rparr>,
              Inl err))"

subsection \<open>The form\<close>

definition validateForm :: "client \<Rightarrow> client \<times> bool" where
  "validateForm st =
     (let errs = \<lparr>title_error =
                    (if draft_title (form st) = [] \<or> length (trim (draft_title (form st))) < 2
                     then Some ''Title should be at least 2 chars'' else None),
                  author_error =
                    (if draft_author (form st) = [] \<or> length (trim (draft_author (form st))) < 3
                     then Some ''Author should be at least 3 chars'' else None)\<rparr>
      in (st\<lparr>formErrors := errs\<rparr>, title_error errs = None \<and> author_error errs = None))"

text \<open>\<^verbatim>\<open>submitForm\<close>; the second argument is what the one call of \<^verbatim>\<open>fetch\<close>
  comes back with, if a call is made.\<close>

definition submitForm :: "string book fetch_result \<Rightarrow> client \<Rightarrow> client" where
  "submitForm r st =
     (case validateForm st of
        (st1, valid) \<Rightarrow>
          if \<not> valid then st1
          else
            (let payload = \<lparr>draft_title = trim (draft_title (form st1)),
                            draft_author = trim (draft_author (form st1))\<rparr>
             in case editingBook st1 of
                  Some eb \<Rightarrow>
                    (case updateBook \<lparr>book_id = book_id eb, title = draft_title payload,
                                      author = draft_author payload\<rparr> r st1 of
                       (st2, Inr updated) \<Rightarrow> st2\<lparr>isFormOpen := False\<rparr>
                     | (st2, Inl err) \<Rightarrow> st2)
                | None \<Rightarrow>
                    (case createBook payload r st1 of
                       (st2, Inr created) \<Rightarrow> st2\<lparr>isFormOpen := False\<rparr>
                     | (st2, Inl err) \<Rightarrow> st2)))"

text \<open>A string is blank when it is empty or consists of white space only.\<close>

definition blank :: "string \<Rightarrow> bool" where
  "blank s = list_all white_space s"

subsection \<open>Facts about the list primitives\<close>

lemma filter_js_filter: "filter_js P xs = filter P xs"
  by (induction xs) simp_all

lemma findIndex_None_iff: "findIndex P xs = None \<longleftrightarrow> (\<forall>x \<in> set xs. \<not> P x)"
  by (induction xs) auto

lemma findIndex_Some_first:
  "findIndex P xs = Some k \<Longrightarrow> k < length xs \<and> P (xs ! k) \<and> (\<forall>j<k. \<not> P (xs ! j))"
proof (induction xs arbitrary: k)
  case Nil
  then show ?case by simp
next
  case (Cons x xs)
  show ?case
  proof (cases "P x")
    case True
    with Cons.prems show ?thesis by simp
  next
    case False
    with Cons.prems obtain k' where k': "findIndex P xs = Some k'" "k = Suc k'"
      by auto
    from Cons.IH [OF k'(1)] have ih: "k' < length xs" "P (xs ! k')" "\<forall>j<k'. \<not> P (xs ! j)"
      by simp_all
    have "\<forall>j<k. \<not> P ((x # xs) ! j)"
    proof (intro allI impI)
      fix j assume "j < k"
      then show "\<not> P ((x # xs) ! j)"
        using False ih(3) k'(2) by (cases j) simp_all
    qed
    with ih k'(2) show ?thesis by simp
  qed
qed

lemma put_books_ids: "map book_id (fst (put_books p t a bs)) = map book_id bs"
proof (cases p)
  case NotAnInteger
  then show ?thesis by (simp add: put_books_def)
next
  case (Integer n)
  show ?thesis
  proof (cases "findIndex (\<lambda>b. loose_eq (book_id b) p) bs")
    case None
    with Integer show ?thesis by (simp add: put_books_def)
  next
    case (Some k)
    from findIndex_Some_first [OF Some] Integer
    have "k < length bs" "book_id (bs ! k) = n" by simp_all
    then have "(map book_id bs)[k := n] = map book_id bs"
      by (metis length_map list_update_id nth_map)
    with Integer Some show ?thesis
      by (simp add: put_books_def Let_def map_update)
  qed
qed

subsection \<open>Uniqueness of ids\<close>

lemma handle_keeps_distinct:
  assumes "distinct (map book_id bs)"
    and "\<And>now t a. x = Create now t a \<Longrightarrow> now \<notin> set (map book_id bs)"
  shows "distinct (map book_id (fst (handle x bs)))"
proof (cases x)
  case List
  with assms(1) show ?thesis by (simp add: get_books_def)
next
  case (Create now t a)
  with assms show ?thesis by (simp add: post_books_def Let_def)
next
  case (Update p t a)
  with assms(1) show ?thesis by (simp add: put_books_ids)
next
  case (Delete p)
  with assms(1) show ?thesis
    by (simp add: delete_books_def filter_js_filter distinct_map_filter)
qed

lemma run_keeps_distinct:
  "distinct (map book_id bs) \<Longrightarrow> fresh_clock ops bs \<Longrightarrow> distinct (map book_id (run ops bs))"
proof (induction ops arbitrary: bs)
  case Nil
  then show ?case by simp
next
  case (Cons x xs)
  have step: "distinct (map book_id (fst (handle x bs)))"
    using Cons.prems by (intro handle_keeps_distinct) auto
  have "fresh_clock xs (fst (handle x bs))"
    using Cons.prems(2) by (cases x) simp_all
  with step show ?case by (simp add: Cons.IH)
qed

lemma fresh_clock_take: "fresh_clock ops bs \<Longrightarrow> fresh_clock (take n ops) bs"
proof (induction ops arbitrary: n bs)
  case Nil
  then show ?case by simp
next
  case (Cons x xs)
  show ?case
  proof (cases n)
    case 0
    then show ?thesis by simp
  next
    case (Suc m)
    with Cons show ?thesis by (cases x) simp_all
  qed
qed

lemma initial_books_distinct: "distinct (map book_id initial_books)"
  by (simp add: initial_books_def)

text \<open>
  Claim C1, as stated: in every state reachable from the initial two books by list,
  create, update and delete requests, no two records have the same id. It fails: two
  POST requests served within the same millisecond store two records with one id.
\<close>

theorem ids_collide_counterexample:
  "\<not> distinct (map book_id (run [Create 1700000000000 ''Dune'' ''Frank Herbert'',
                                  Create 1700000000000 ''Emma'' ''Jane Austen''] initial_books))"
  by (simp add: initial_books_def post_books_def Let_def)

text \<open>
  Claim C1, amended: when every POST is served at a time value that is not the id of a
  stored record, the ids are pairwise distinct after every prefix of the request
  sequence, that is, at every instant. PUT keeps the id of the record it replaces and
  DELETE only removes records.
\<close>

theorem ids_unique_under_fresh_clock:
  "fresh_clock ops initial_books \<Longrightarrow> distinct (map book_id (run (take n ops) initial_books))"
  by (intro run_keeps_distinct initial_books_distinct fresh_clock_take)

theorem ids_unique_under_fresh_clock_witness:
  "fresh_clock [Create 1700000000000 ''Dune'' ''Frank Herbert'',
                Update (Integer 2) ''Animal Farm'' ''George Orwell'',
                Delete (Integer 1),
                Create 1700000000001 ''Emma'' ''Jane Austen'',
                List] initial_books
   \<and> distinct (map book_id (run (take 5
               [Create 1700000000000 ''Dune'' ''Frank Herbert'',
                Update (Integer 2) ''Animal Farm'' ''George Orwell'',
                Delete (Integer 1),
                Create 1700000000001 ''Emma'' ''Jane Austen'',
                List]) initial_books))"
proof (rule conjI)
  show fresh: "fresh_clock [Create 1700000000000 ''Dune'' ''Frank Herbert'',
                Update (Integer 2) ''Animal Farm'' ''George Orwell'',
                Delete (Integer 1),
                Create 1700000000001 ''Emma'' ''Jane Austen'',
                List] initial_books"
    by (simp add: initial_books_def post_books_def put_books_def delete_books_def
        get_books_def Let_def)
  show "distinct (map book_id (run (take 5
               [Create 1700000000000 ''Dune'' ''Frank Herbert'',
                Update (Integer 2) ''Animal Farm'' ''George Orwell'',
                Delete (Integer 1),
                Create 1700000000001 ''Emma'' ''Jane Austen'',
                List]) initial_books))"
    by (rule ids_unique_under_fresh_clock [OF fresh])
qed

subsection \<open>Update\<close>

text \<open>
  Claim C2: when no stored record has the id of the request, update answers 404 with
  the message and the collection after the request is the collection before it.
\<close>

theorem update_missing_id:
  "\<forall>b \<in> set bs. \<not> loose_eq (book_id b) p \<Longrightarrow>
     put_books p t a bs = (bs, Response 404 (Message ''Book not found''))"
proof (cases p)
  case NotAnInteger
  then show ?thesis by (simp add: put_books_def)
next
  case (Integer n)
  assume "\<forall>b \<in> set bs. \<not> loose_eq (book_id b) p"
  then have "findIndex (\<lambda>b. loose_eq (book_id b) p) bs = None"
    by (simp add: findIndex_None_iff)
  with Integer show ?thesis by (simp add: put_books_def)
qed

theorem update_missing_id_witness:
  "\<not> list_ex (\<lambda>b. loose_eq (book_id b) (Integer 3)) initial_books \<and>
   put_books (Integer 3) ''Dune'' ''Frank Herbert'' initial_books
     = (initial_books, Response 404 (Message ''Book not found''))"
proof (rule conjI)
  show "\<not> list_ex (\<lambda>b. loose_eq (book_id b) (Integer 3)) initial_books"
    by (simp add: initial_books_def)
  have absent: "\<forall>b \<in> set initial_books. \<not> loose_eq (book_id b) (Integer 3)"
    by (simp add: initial_books_def)
  show "put_books (Integer 3) ''Dune'' ''Frank Herbert'' initial_books
     = (initial_books, Response 404 (Message ''Book not found''))"
    by (rule update_missing_id [OF absent])
qed

text \<open>
  Claim C3: when some stored record has the id of the request, update replaces the
  record it locates, which is the first one with that id, by the record made of the id
  of the URL (as a number) and the title and author of the body, answers 200 with that
  record, and leaves the length of the collection and the record at every other
  position as they were.
\<close>

theorem update_existing_id:
  assumes "\<exists>b \<in> set bs. loose_eq (book_id b) p"
  shows "\<exists>k n. p = Integer n \<and> k < length bs \<and> book_id (bs ! k) = n \<and>
           (\<forall>j<k. book_id (bs ! j) \<noteq> n) \<and>
           put_books p t a bs =
             (bs[k := \<lparr>book_id = n, title = t, author = a\<rparr>],
              Response 200 (BookBody \<lparr>book_id = n, title = t, author = a\<rparr>)) \<and>
           length (fst (put_books p t a bs)) = length bs \<and>
           (\<forall>j<length bs. j \<noteq> k \<longrightarrow> fst (put_books p t a bs) ! j = bs ! j)"
proof -
  from assms obtain n where p: "p = Integer n"
    by (cases p) auto
  from assms have "findIndex (\<lambda>b. loose_eq (book_id b) p) bs \<noteq> None"
    by (simp add: findIndex_None_iff)
  then obtain k where k: "findIndex (\<lambda>b. loose_eq (book_id b) p) bs = Some k"
    by auto
  from findIndex_Some_first [OF k] p
  have first: "k < length bs" "book_id (bs ! k) = n" "\<forall>j<k. book_id (bs ! j) \<noteq> n"
    by simp_all
  from p k first(1)
  have put: "put_books p t a bs =
      (bs[k := \<lparr>book_id = n, title = t, author = a\<rparr>],
       Response 200 (BookBody \<lparr>book_id = n, title = t, author = a\<rparr>))"
    by (simp add: put_books_def Let_def)
  have "length (fst (put_books p t a bs)) = length bs"
    by (simp add: put)
  moreover have "\<forall>j<length bs. j \<noteq> k \<longrightarrow> fst (put_books p t a bs) ! j = bs ! j"
    by (simp add: put)
  ultimately show ?thesis
    using p first put by blast
qed

theorem update_existing_id_witness:
  "list_ex (\<lambda>b. loose_eq (book_id b) (Integer 2)) initial_books \<and>
   put_books (Integer 2) ''Animal Farm'' ''G. Orwell'' initial_books =
     ([\<lparr>book_id = 1, title = ''The Hobbit'', author = ''J.R.R. Tolkien''\<rparr>,
       \<lparr>book_id = 2, title = ''Animal Farm'', author = ''G. Orwell''\<rparr>],
      Response 200 (BookBody \<lparr>book_id = 2, title = ''Animal Farm'', author = ''G. Orwell''\<rparr>))"
proof (rule conjI)
  show "list_ex (\<lambda>b. loose_eq (book_id b) (Integer 2)) initial_books"
    by (simp add: initial_books_def)
  have present: "\<exists>b \<in> set initial_books. loose_eq (book_id b) (Integer 2)"
    by (simp add: initial_books_def)
  from update_existing_id [OF present, of "''Animal Farm''" "''G. Orwell''"]
  obtain k n where n: "Integer 2 = Integer n"
    and k: "k < length initial_books" "book_id (initial_books ! k) = n"
    and put: "put_books (Integer 2) ''Animal Farm'' ''G. Orwell'' initial_books =
       (initial_books[k := \<lparr>book_id = n, title = ''Animal Farm'', author = ''G. Orwell''\<rparr>],
        Response 200 (BookBody \<lparr>book_id = n, title = ''Animal Farm'', author = ''G. Orwell''\<rparr>))"
    by blast
  from n have n2: "n = 2" by simp
  from k n2 have "k = 1"
    by (cases k) (simp_all add: initial_books_def)
  with put n2
  show "put_books (Integer 2) ''Animal Farm'' ''G. Orwell'' initial_books =
     ([\<lparr>book_id = 1, title = ''The Hobbit'', author = ''J.R.R. Tolkien''\<rparr>,
       \<lparr>book_id = 2, title = ''Animal Farm'', author = ''G. Orwell''\<rparr>],
      Response 200 (BookBody \<lparr>book_id = 2, title = ''Animal Farm'', author = ''G. Orwell''\<rparr>))"
    by (simp add: initial_books_def)
qed

subsection \<open>Delete\<close>

text \<open>
  Claim C4: for every collection and every id, matched or not, delete answers 200 with
  the confirmation message; a list request served next returns the remaining
  collection, in which no record has the id; the records that remain are exactly those
  of the collection before whose id is different.
\<close>

theorem delete_removes_id:
  "snd (delete_books p bs) = Response 200 (Message ''Book deleted'') \<and>
   snd (get_books (fst (delete_books p bs))) = Response 200 (Books (fst (delete_books p bs))) \<and>
   (\<forall>b \<in> set (fst (delete_books p bs)). \<not> loose_eq (book_id b) p) \<and>
   set (fst (delete_books p bs)) = {b \<in> set bs. \<not> loose_eq (book_id b) p}"
  by (simp add: delete_books_def get_books_def filter_js_filter)

theorem delete_removes_id_witness:
  "snd (delete_books (Integer 1) initial_books) = Response 200 (Message ''Book deleted'') \<and>
   snd (get_books (fst (delete_books (Integer 1) initial_books)))
     = Response 200 (Books [\<lparr>book_id = 2, title = ''1984'', author = ''George Orwell''\<rparr>]) \<and>
   \<not> list_ex (\<lambda>b. loose_eq (book_id b) (Integer 1)) (fst (delete_books (Integer 1) initial_books)) \<and>
   snd (delete_books (Integer 7) initial_books) = Response 200 (Message ''Book deleted'') \<and>
   \<not> list_ex (\<lambda>b. loose_eq (book_id b) (Integer 7)) (fst (delete_books (Integer 7) initial_books))"
proof -
  have one: "fst (delete_books (Integer 1) initial_books)
      = [\<lparr>book_id = 2, title = ''1984'', author = ''George Orwell''\<rparr>]"
    by (simp add: delete_books_def initial_books_def)
  from delete_removes_id [of "Integer 1" initial_books] delete_removes_id [of "Integer 7" initial_books]
  show ?thesis
    unfolding one list_ex_iff by blast
qed

text \<open>
  Claim C10: delete keeps the records whose id does not match at their relative
  positions: the collection after the request consists of the records at the
  non-matching positions of the collection before, in increasing order of position.
\<close>

theorem delete_keeps_order:
  "fst (delete_books p bs) = nths bs {i. i < length bs \<and> \<not> loose_eq (book_id (bs ! i)) p} \<and>
   subseq (fst (delete_books p bs)) bs"
proof (rule conjI)
  show "fst (delete_books p bs) = nths bs {i. i < length bs \<and> \<not> loose_eq (book_id (bs ! i)) p}"
    by (simp add: delete_books_def filter_js_filter filter_eq_nths)
  show "subseq (fst (delete_books p bs)) bs"
    by (simp add: delete_books_def filter_js_filter)
qed

subsection \<open>Create and list\<close>

text \<open>
  Claim C5: create appends the new record and answers 201 with it; a list request
  served next returns the collection with that record as its last element; list
  returns the whole collection as stored and leaves it unchanged, and a series of
  creates leaves the records in the order of their creation.
\<close>

theorem create_then_list:
  "post_books now t a bs =
     (bs @ [\<lparr>book_id = now, title = t, author = a\<rparr>],
      Response 201 (BookBody \<lparr>book_id = now, title = t, author = a\<rparr>)) \<and>
   snd (get_books (fst (post_books now t a bs)))
     = Response 200 (Books (bs @ [\<lparr>book_id = now, title = t, author = a\<rparr>])) \<and>
   last (fst (post_books now t a bs)) = \<lparr>book_id = now, title = t, author = a\<rparr> \<and>
   get_books bs = (bs, Response 200 (Books bs)) \<and>
   run (map (\<lambda>(now, t, a). Create now t a) cs) bs
     = bs @ map (\<lambda>(now, t, a). \<lparr>book_id = now, title = t, author = a\<rparr>) cs"
proof -
  have "run (map (\<lambda>(now, t, a). Create now t a) cs) bs
     = bs @ map (\<lambda>(now, t, a). \<lparr>book_id = now, title = t, author = a\<rparr>) cs"
    by (induction cs arbitrary: bs) (auto simp: post_books_def Let_def)
  then show ?thesis
    by (simp add: post_books_def get_books_def Let_def)
qed

subsection \<open>Sorting with a consistent comparison function\<close>

lemma code_unit_order_flip: "code_unit_order a b < 0 \<longleftrightarrow> 0 < code_unit_order b a"
  by (induction a b rule: code_unit_order.induct) auto

lemma code_unit_order_trans:
  "code_unit_order a b \<le> 0 \<Longrightarrow> code_unit_order b c \<le> 0 \<Longrightarrow> code_unit_order a c \<le> 0"
proof (induction a b arbitrary: c rule: code_unit_order.induct)
  case 1
  then show ?case by simp
next
  case (2 y ys)
  then show ?case by (cases c) simp_all
next
  case (3 x xs)
  then show ?case by simp
next
  case (4 x xs y ys)
  show ?case
  proof (cases c)
    case Nil
    with 4 show ?thesis by simp
  next
    case (Cons z zs)
    with "4.prems" "4.IH" [of zs] show ?thesis
      by (auto split: if_splits)
  qed
qed

lemma consistent_code_unit_order: "consistent code_unit_order"
  unfolding consistent_def using code_unit_order_flip code_unit_order_trans by blast

lemma set_insert_js: "set (insert_js cmp x xs) = insert x (set xs)"
  by (induction xs) auto

lemma set_sort_js: "set (sort_js cmp xs) = set xs"
  by (induction xs) (simp_all add: set_insert_js)

lemma sorted_insert_js:
  assumes "consistent cmp" and "sorted_wrt (\<lambda>a b. cmp a b \<le> 0) xs"
  shows "sorted_wrt (\<lambda>a b. cmp a b \<le> 0) (insert_js cmp x xs)"
  using assms(2)
proof (induction xs)
  case Nil
  then show ?case by simp
next
  case (Cons y ys)
  from assms(1) have flip: "\<And>a b. cmp a b < 0 \<longleftrightarrow> 0 < cmp b a"
    and trans: "\<And>a b c. cmp a b \<le> 0 \<Longrightarrow> cmp b c \<le> 0 \<Longrightarrow> cmp a c \<le> 0"
    unfolding consistent_def by blast+
  show ?case
  proof (cases "cmp x y \<le> 0")
    case True
    with Cons.prems trans have "\<forall>z \<in> set (y # ys). cmp x z \<le> 0"
      by auto
    with True Cons.prems show ?thesis by simp
  next
    case False
    then have "cmp y x \<le> 0"
      using flip [of y x] by simp
    with False Cons show ?thesis
      by (simp add: set_insert_js)
  qed
qed

lemma sorted_sort_js: "consistent cmp \<Longrightarrow> sorted_wrt (\<lambda>a b. cmp a b \<le> 0) (sort_js cmp xs)"
  by (induction xs) (simp_all add: sorted_insert_js)

lemma consistent_on_field: "consistent cmp \<Longrightarrow> consistent (\<lambda>a b. cmp (f a) (f b))"
  unfolding consistent_def by blast

lemma map_insert_js:
  "map f (insert_js (\<lambda>a b. cmp (f a) (f b)) x xs) = insert_js cmp (f x) (map f xs)"
  by (induction xs) simp_all

lemma map_sort_js: "map f (sort_js (\<lambda>a b. cmp (f a) (f b)) xs) = sort_js cmp (map f xs)"
  by (induction xs) (simp_all add: map_insert_js)

lemma fld_dir_title_asc: "fld_dir ''title-asc'' = (''title'', Some ''asc'')"
  by (simp add: fld_dir_def)

lemma compare_title_asc:
  "compare_books localeCompare ''title'' (Some ''asc'') = (\<lambda>x y. localeCompare (title x) (title y))"
  by (simp add: compare_books_def fun_eq_iff)

lemma filtered_title_asc:
  "filtered localeCompare query ''title-asc'' bs =
     sort_js (\<lambda>x y. localeCompare (title x) (title y))
       (if toLowerCase (trim query) \<noteq> []
        then filter_js (\<lambda>b. includes_js (toLowerCase (title b)) (toLowerCase (trim query))
                           \<or> includes_js (toLowerCase (author b)) (toLowerCase (trim query))) bs
        else bs)"
  by (simp add: filtered_def Let_def fld_dir_title_asc compare_title_asc)

lemma trim_empty: "trim [] = []"
  by (simp add: trim_def)

text \<open>
  Claim C8: with the sort key \<^verbatim>\<open>title-asc\<close> the comparison of two records is the
  collation of their titles and of nothing else; in the sorted view every record titled
  1984 stands before every record titled The Hobbit, whatever the authors and ids; and
  the sequence of titles in the view is the sorted sequence of the titles, so no
  ordering by author takes part. The collation is that of the browser: it is taken to
  be a consistent comparison that puts 1984 before The Hobbit.
\<close>

theorem sort_by_title_ascending:
  assumes cons: "consistent localeCompare"
    and lt: "localeCompare ''1984'' ''The Hobbit'' < 0"
  shows "compare_books localeCompare ''title'' (Some ''asc'') x y = localeCompare (title x) (title y) \<and>
    (\<forall>i j. i < length (filtered localeCompare query ''title-asc'' bs) \<and>
           j < length (filtered localeCompare query ''title-asc'' bs) \<and>
           title (filtered localeCompare query ''title-asc'' bs ! i) = ''1984'' \<and>
           title (filtered localeCompare query ''title-asc'' bs ! j) = ''The Hobbit''
           \<longrightarrow> i < j) \<and>
    filtered localeCompare [] ''title-asc''
        [\<lparr>book_id = m, title = ''The Hobbit'', author = a1\<rparr>,
         \<lparr>book_id = n, title = ''1984'', author = a2\<rparr>]
      = [\<lparr>book_id = n, title = ''1984'', author = a2\<rparr>,
         \<lparr>book_id = m, title = ''The Hobbit'', author = a1\<rparr>] \<and>
    filtered localeCompare [] ''title-asc''
        [\<lparr>book_id = n, title = ''1984'', author = a2\<rparr>,
         \<lparr>book_id = m, title = ''The Hobbit'', author = a1\<rparr>]
      = [\<lparr>book_id = n, title = ''1984'', author = a2\<rparr>,
         \<lparr>book_id = m, title = ''The Hobbit'', author = a1\<rparr>] \<and>
    map title (filtered localeCompare [] ''title-asc'' bs) = sort_js localeCompare (map title bs)"
proof -
  from cons have flip: "\<And>a b. localeCompare a b < 0 \<longleftrightarrow> 0 < localeCompare b a"
    unfolding consistent_def by blast
  from lt have gt: "0 < localeCompare ''The Hobbit'' ''1984''"
    by (simp only: flip)
  have by_title: "compare_books localeCompare ''title'' (Some ''asc'') x y
      = localeCompare (title x) (title y)"
    by (simp add: compare_title_asc)
  have ordered: "sorted_wrt (\<lambda>x y. localeCompare (title x) (title y) \<le> 0)
      (filtered localeCompare query ''title-asc'' bs)"
    unfolding filtered_title_asc by (rule sorted_sort_js [OF consistent_on_field [OF cons]])
  have positions: "i < j"
    if "i < length (filtered localeCompare query ''title-asc'' bs)"
      and "j < length (filtered localeCompare query ''title-asc'' bs)"
      and "title (filtered localeCompare query ''title-asc'' bs ! i) = ''1984''"
      and "title (filtered localeCompare query ''title-asc'' bs ! j) = ''The Hobbit''"
    for i j
  proof (rule ccontr)
    assume "\<not> i < j"
    moreover from that(3,4) have "i \<noteq> j" by auto
    ultimately have "j < i" by simp
    with ordered that(1) have "localeCompare
        (title (filtered localeCompare query ''title-asc'' bs ! j))
        (title (filtered localeCompare query ''title-asc'' bs ! i)) \<le> 0"
      by (simp add: sorted_wrt_iff_nth_less)
    with that(3,4) gt show False by simp
  qed
  have two: "filtered localeCompare [] ''title-asc''
        [\<lparr>book_id = m, title = ''The Hobbit'', author = a1\<rparr>,
         \<lparr>book_id = n, title = ''1984'', author = a2\<rparr>]
      = [\<lparr>book_id = n, title = ''1984'', author = a2\<rparr>,
         \<lparr>book_id = m, title = ''The Hobbit'', author = a1\<rparr>]"
    using gt by (simp add: filtered_title_asc trim_empty toLowerCase_def)
  have two': "filtered localeCompare [] ''title-asc''
        [\<lparr>book_id = n, title = ''1984'', author = a2\<rparr>,
         \<lparr>book_id = m, title = ''The Hobbit'', author = a1\<rparr>]
      = [\<lparr>book_id = n, title = ''1984'', author = a2\<rparr>,
         \<lparr>book_id = m, title = ''The Hobbit'', author = a1\<rparr>]"
    using lt by (simp add: filtered_title_asc trim_empty toLowerCase_def)
  have titles: "map title (filtered localeCompare [] ''title-asc'' bs)
      = sort_js localeCompare (map title bs)"
    by (simp add: filtered_title_asc trim_empty toLowerCase_def map_sort_js)
  show ?thesis
  proof (intro conjI allI impI)
    fix i j
    assume "i < length (filtered localeCompare query ''title-asc'' bs) \<and>
           j < length (filtered localeCompare query ''title-asc'' bs) \<and>
           title (filtered localeCompare query ''title-asc'' bs ! i) = ''1984'' \<and>
           title (filtered localeCompare query ''title-asc'' bs ! j) = ''The Hobbit''"
    then show "i < j"
      by (elim conjE) (rule positions)
  qed (fact by_title two two' titles)+
qed

theorem sort_by_title_ascending_witness:
  "consistent code_unit_order \<and>
   code_unit_order ''1984'' ''The Hobbit'' < 0 \<and>
   filtered code_unit_order [] ''title-asc'' initial_books
     = [\<lparr>book_id = 2, title = ''1984'', author = ''George Orwell''\<rparr>,
        \<lparr>book_id = 1, title = ''The Hobbit'', author = ''J.R.R. Tolkien''\<rparr>]"
proof (intro conjI)
  show cons: "consistent code_unit_order"
    by (rule consistent_code_unit_order)
  show lt: "code_unit_order ''1984'' ''The Hobbit'' < 0"
    by simp
  show "filtered code_unit_order [] ''title-asc'' initial_books
     = [\<lparr>book_id = 2, title = ''1984'', author = ''George Orwell''\<rparr>,
        \<lparr>book_id = 1, title = ''The Hobbit'', author = ''J.R.R. Tolkien''\<rparr>]"
    unfolding initial_books_def
    by (rule sort_by_title_ascending [OF cons lt, THEN conjunct2, THEN conjunct2, THEN conjunct1])
qed

subsection \<open>Searching\<close>

lemma white_space_lower: "white_space c \<Longrightarrow> lower_char c = c"
  by (auto simp add: white_space_def lower_char_def)

lemma trim_id: "s \<noteq> [] \<Longrightarrow> \<not> white_space (hd s) \<Longrightarrow> \<not> white_space (last s) \<Longrightarrow> trim s = s"
proof -
  assume s: "s \<noteq> []" "\<not> white_space (hd s)" "\<not> white_space (last s)"
  then have front: "dropWhile white_space s = s"
    by (simp add: dropWhile_eq_self_iff)
  from s have "dropWhile white_space (rev s) = rev s"
    by (simp add: dropWhile_eq_self_iff hd_rev)
  with front show ?thesis
    by (simp add: trim_def)
qed

lemma tolkien_no_white_space: "c \<in> set ''tolkien'' \<Longrightarrow> \<not> white_space c"
  by (auto simp add: white_space_def)

lemma casing_trim:
  assumes "toLowerCase query = ''tolkien''"
  shows "trim query = query"
proof -
  from assms have ne: "query \<noteq> []"
    by (auto simp add: toLowerCase_def)
  have "\<not> white_space c" if "c \<in> set query" for c
  proof
    assume ws: "white_space c"
    from that have "lower_char c \<in> set (toLowerCase query)"
      by (simp add: toLowerCase_def)
    with ws assms have "c \<in> set ''tolkien''"
      by (simp only: white_space_lower)
    with ws tolkien_no_white_space show False by blast
  qed
  with ne have "\<not> white_space (hd query)" "\<not> white_space (last query)"
    by simp_all
  with ne show ?thesis by (rule trim_id)
qed

lemma hobbit_matches: "includes_js (toLowerCase ''J.R.R. Tolkien'') ''tolkien''"
  by code_simp

text \<open>
  Claim C7: for every casing of the query tolkien, the view of a collection that holds
  the record titled The Hobbit by J.R.R. Tolkien, and otherwise only records whose
  title and author do not contain tolkien in lower case, is exactly that record, for
  every sort key and collation.
\<close>

theorem filter_tolkien:
  assumes casing: "toLowerCase query = ''tolkien''"
    and hobbit: "title h = ''The Hobbit''" "author h = ''J.R.R. Tolkien''"
    and others: "\<forall>b \<in> set pre \<union> set post.
        \<not> includes_js (toLowerCase (title b)) ''tolkien'' \<and>
        \<not> includes_js (toLowerCase (author b)) ''tolkien''"
  shows "filtered localeCompare query sortBy (pre @ [h] @ post) = [h]"
proof -
  let ?match = "\<lambda>b. includes_js (toLowerCase (title b)) ''tolkien''
                    \<or> includes_js (toLowerCase (author b)) ''tolkien''"
  from casing have q: "toLowerCase (trim query) = ''tolkien''"
    by (simp only: casing_trim)
  from others have "filter ?match pre = []" "filter ?match post = []"
    by (simp_all add: filter_empty_conv)
  moreover from hobbit hobbit_matches have "?match h"
    by simp
  ultimately have "filter_js ?match (pre @ [h] @ post) = [h]"
    by (simp add: filter_js_filter)
  then show ?thesis
    by (simp add: filtered_def q Let_def split: prod.splits)
qed

theorem filter_tolkien_witness:
  "toLowerCase ''TolKIEN'' = ''tolkien'' \<and>
   filtered code_unit_order ''TolKIEN'' ''id-desc'' initial_books
     = [\<lparr>book_id = 1, title = ''The Hobbit'', author = ''J.R.R. Tolkien''\<rparr>]"
proof (rule conjI)
  show casing: "toLowerCase ''TolKIEN'' = ''tolkien''"
    by code_simp
  have others: "\<forall>b \<in> set [] \<union> set [\<lparr>book_id = 2, title = ''1984'', author = ''George Orwell''\<rparr>].
        \<not> includes_js (toLowerCase (title b)) ''tolkien'' \<and>
        \<not> includes_js (toLowerCase (author b)) ''tolkien''"
    by code_simp
  from filter_tolkien [OF casing _ _ others,
      of "\<lparr>book_id = 1, title = ''The Hobbit'', author = ''J.R.R. Tolkien''\<rparr>"
         code_unit_order "''id-desc''"]
  show "filtered code_unit_order ''TolKIEN'' ''id-desc'' initial_books
     = [\<lparr>book_id = 1, title = ''The Hobbit'', author = ''J.R.R. Tolkien''\<rparr>]"
    by (simp add: initial_books_def)
qed

subsection \<open>Submitting the form\<close>

lemma trim_not_blank: "trim s \<noteq> [] \<Longrightarrow> \<not> blank (trim s)"
proof -
  let ?u = "dropWhile white_space (rev (dropWhile white_space s))"
  assume "trim s \<noteq> []"
  then have ne: "?u \<noteq> []"
    by (simp add: trim_def)
  then have "\<not> white_space (hd ?u)"
    by (rule hd_dropWhile)
  moreover from ne have "hd ?u \<in> set (trim s)"
    by (simp add: trim_def)
  ultimately show ?thesis
    by (auto simp add: blank_def list_all_iff)
qed

lemma validateForm_valid:
  "snd (validateForm st) \<longleftrightarrow>
     2 \<le> length (trim (draft_title (form st))) \<and> 3 \<le> length (trim (draft_author (form st)))"
  by (auto simp add: validateForm_def Let_def trim_empty)

lemma sent_createBook: "sent (fst (createBook payload r st)) = sent st @ [POST payload]"
  by (simp add: createBook_def Let_def split: sum.splits)

lemma sent_updateBook: "sent (fst (updateBook payload r st)) = sent st @ [PUT (book_id payload) payload]"
  by (simp add: updateBook_def Let_def split: sum.splits)

lemma sent_removeBook: "sent (fst (removeBook i r st)) = sent st @ [DELETE i]"
  by (simp add: removeBook_def Let_def split: sum.splits fetch_result.splits)

lemma sent_submitForm:
  "sent (submitForm r st) = sent st @
     (if 2 \<le> length (trim (draft_title (form st))) \<and> 3 \<le> length (trim (draft_author (form st)))
      then [case editingBook st of
              None \<Rightarrow> POST \<lparr>draft_title = trim (draft_title (form st)),
                            draft_author = trim (draft_author (form st))\<rparr>
            | Some eb \<Rightarrow> PUT (book_id eb)
                           \<lparr>book_id = book_id eb, title = trim (draft_title (form st)),
                            author = trim (draft_author (form st))\<rparr>]
      else [])"
proof -
  obtain st1 valid where v: "validateForm st = (st1, valid)"
    by (cases "validateForm st")
  from v have valid: "valid \<longleftrightarrow>
      2 \<le> length (trim (draft_title (form st))) \<and> 3 \<le> length (trim (draft_author (form st)))"
    using validateForm_valid [of st] by simp
  from v have st1: "sent st1 = sent st" "form st1 = form st" "editingBook st1 = editingBook st"
    by (auto simp add: validateForm_def Let_def)
  show ?thesis
  proof (cases valid)
    case False
    with v valid st1 show ?thesis
      by (simp add: submitForm_def)
  next
    case True
    show ?thesis
    proof (cases "editingBook st")
      case None
      obtain st2 res where c: "createBook \<lparr>draft_title = trim (draft_title (form st)),
          draft_author = trim (draft_author (form st))\<rparr> r st1 = (st2, res)"
        by (cases "createBook \<lparr>draft_title = trim (draft_title (form st)),
          draft_author = trim (draft_author (form st))\<rparr> r st1")
      with sent_createBook [of "\<lparr>draft_title = trim (draft_title (form st)),
          draft_author = trim (draft_author (form st))\<rparr>" r st1]
      have "sent st2 = sent st @ [POST \<lparr>draft_title = trim (draft_title (form st)),
          draft_author = trim (draft_author (form st))\<rparr>]"
        by (simp add: st1)
      with True v valid st1 None c show ?thesis
        by (simp add: submitForm_def Let_def split: sum.splits)
    next
      case (Some eb)
      obtain st2 res where u: "updateBook \<lparr>book_id = book_id eb,
          title = trim (draft_title (form st)),
          author = trim (draft_author (form st))\<rparr> r st1 = (st2, res)"
        by (cases "updateBook \<lparr>book_id = book_id eb,
          title = trim (draft_title (form st)),
          author = trim (draft_author (form st))\<rparr> r st1")
      with sent_updateBook [of "\<lparr>book_id = book_id eb,
          title = trim (draft_title (form st)),
          author = trim (draft_author (form st))\<rparr>" r st1]
      have "sent st2 = sent st @ [PUT (book_id eb) \<lparr>book_id = book_id eb,
          title = trim (draft_title (form st)),
          author = trim (draft_author (form st))\<rparr>]"
        by (simp add: st1)
      with True v valid st1 Some u show ?thesis
        by (simp add: submitForm_def Let_def split: sum.splits)
    qed
  qed
qed

text \<open>
  Claim C9: submitting the form calls \<^verbatim>\<open>fetch\<close> exactly when the trimmed title
  has at least 2 code units and the trimmed author at least 3, and then once: with a
  POST, or a PUT when a book is being edited, whose title and author are the trimmed
  ones; such a title or author is neither empty nor made of white space only.
\<close>

theorem submit_sends_validated_payload:
  "sent (submitForm r st) = sent st @
     (if 2 \<le> length (trim (draft_title (form st))) \<and> 3 \<le> length (trim (draft_author (form st)))
      then [case editingBook st of
              None \<Rightarrow> POST \<lparr>draft_title = trim (draft_title (form st)),
                            draft_author = trim (draft_author (form st))\<rparr>
            | Some eb \<Rightarrow> PUT (book_id eb)
                           \<lparr>book_id = book_id eb, title = trim (draft_title (form st)),
                            author = trim (draft_author (form st))\<rparr>]
      else []) \<and>
   (2 \<le> length (trim (draft_title (form st))) \<longrightarrow>
      trim (draft_title (form st)) \<noteq> [] \<and> \<not> blank (trim (draft_title (form st)))) \<and>
   (3 \<le> length (trim (draft_author (form st))) \<longrightarrow>
      trim (draft_author (form st)) \<noteq> [] \<and> \<not> blank (trim (draft_author (form st))))"
proof (intro conjI impI)
  show "sent (submitForm r st) = sent st @
     (if 2 \<le> length (trim (draft_title (form st))) \<and> 3 \<le> length (trim (draft_author (form st)))
      then [case editingBook st of
              None \<Rightarrow> POST \<lparr>draft_title = trim (draft_title (form st)),
                            draft_author = trim (draft_author (form st))\<rparr>
            | Some eb \<Rightarrow> PUT (book_id eb)
                           \<lparr>book_id = book_id eb, title = trim (draft_title (form st)),
                            author = trim (draft_author (form st))\<rparr>]
      else [])"
    by (rule sent_submitForm)
next
  assume "2 \<le> length (trim (draft_title (form st)))"
  then show t: "trim (draft_title (form st)) \<noteq> []" by auto
  then show "\<not> blank (trim (draft_title (form st)))" by (rule trim_not_blank)
next
  assume "3 \<le> length (trim (draft_author (form st)))"
  then show a: "trim (draft_author (form st)) \<noteq> []" by auto
  then show "\<not> blank (trim (draft_author (form st)))" by (rule trim_not_blank)
qed

lemma trim_examples:
  "trim ''  Dune '' = ''Dune''" "trim '' Frank Herbert'' = ''Frank Herbert''"
  "trim '' a  '' = ''a''" "trim ''     '' = []"
  by (simp_all add: trim_def white_space_def)

theorem submit_sends_validated_payload_witness:
  "sent (submitForm (Rejected ''Failed to fetch'')
      (initial_client\<lparr>form := \<lparr>draft_title = ''  Dune '', draft_author = '' Frank Herbert''\<rparr>\<rparr>))
     = [POST \<lparr>draft_title = ''Dune'', draft_author = ''Frank Herbert''\<rparr>] \<and>
   \<not> blank ''Dune'' \<and> \<not> blank ''Frank Herbert'' \<and>
   sent (submitForm (Rejected ''Failed to fetch'')
      (initial_client\<lparr>form := \<lparr>draft_title = '' a  '', draft_author = ''     ''\<rparr>\<rparr>)) = []"
proof -
  let ?good = "initial_client\<lparr>form := \<lparr>draft_title = ''  Dune '', draft_author = '' Frank Herbert''\<rparr>\<rparr>"
  let ?bad = "initial_client\<lparr>form := \<lparr>draft_title = '' a  '', draft_author = ''     ''\<rparr>\<rparr>"
  from submit_sends_validated_payload [of "Rejected ''Failed to fetch''" ?good]
  have "sent (submitForm (Rejected ''Failed to fetch'') ?good)
      = [POST \<lparr>draft_title = ''Dune'', draft_author = ''Frank Herbert''\<rparr>]"
    and "\<not> blank ''Dune''" and "\<not> blank ''Frank Herbert''"
    by (simp_all add: trim_examples initial_client_def)
  moreover from submit_sends_validated_payload [of "Rejected ''Failed to fetch''" ?bad]
  have "sent (submitForm (Rejected ''Failed to fetch'') ?bad) = []"
    by (simp add: trim_examples initial_client_def)
  ultimately show ?thesis by simp
qed

subsection \<open>The mirror of the collection\<close>

lemma awaited_json_failed:
  "failed_json r \<Longrightarrow> \<exists>err. awaited_json not_ok r = Inl err"
  by (cases r) (auto simp add: awaited_json_def isl_def)

lemma createBook_failure:
  assumes "failed_json r"
  shows "books (fst (createBook payload r st)) = books st \<and>
         (\<exists>m. toast (fst (createBook payload r st)) = Some \<lparr>toast_type = Error, message = m\<rparr>)"
proof -
  from awaited_json_failed [OF assms] obtain err
    where "awaited_json ''Failed to create book'' r = Inl err" by blast
  then show ?thesis by (simp add: createBook_def Let_def)
qed

lemma updateBook_failure:
  assumes "failed_json r"
  shows "books (fst (updateBook payload r st)) = books st \<and>
         (\<exists>m. toast (fst (updateBook payload r st)) = Some \<lparr>toast_type = Error, message = m\<rparr>)"
proof -
  from awaited_json_failed [OF assms] obtain err
    where "awaited_json ''Failed to update book'' r = Inl err" by blast
  then show ?thesis by (simp add: updateBook_def Let_def)
qed

lemma removeBook_failure:
  assumes "failed r"
  shows "books (fst (removeBook i r st)) = books st \<and>
         (\<exists>m. toast (fst (removeBook i r st)) = Some \<lparr>toast_type = Error, message = m\<rparr>)"
  using assms by (cases r) (simp_all add: removeBook_def Let_def)

lemma createBook_success:
  "createBook payload (Resolved True (Inr created)) st =
     (st\<lparr>sent := sent st @ [POST payload], books := books st @ [created],
         toast := Some \<lparr>toast_type = Success, message = ''Book added''\<rparr>\<rparr>, Inr created)"
  by (simp add: createBook_def awaited_json_def Let_def)

lemma updateBook_success:
  "updateBook payload (Resolved True (Inr updated)) st =
     (st\<lparr>sent := sent st @ [PUT (book_id payload) payload],
         books := map (\<lambda>b. if book_id b = book_id updated then updated else b) (books st),
         toast := Some \<lparr>toast_type = Success, message = ''Book updated''\<rparr>\<rparr>, Inr updated)"
  by (simp add: updateBook_def awaited_json_def Let_def)

lemma removeBook_success:
  "removeBook i (Resolved True json) st =
     (st\<lparr>sent := sent st @ [DELETE i],
         books := filter (\<lambda>b. book_id b \<noteq> i) (books st),
         toast := Some \<lparr>toast_type = Success, message = ''Book deleted''\<rparr>\<rparr>, Inr ())"
  by (simp add: removeBook_def Let_def filter_js_filter)

text \<open>
  Claim C6, as stated, says that after a successful create, update or delete the mirror
  is patched from the response of the server rather than from the input. For delete it
  fails: with one and the same response, the mirror after the request depends on the id
  that was passed in.
\<close>

theorem delete_patch_from_input_counterexample:
  "books (fst (removeBook 1 (Resolved True (Inr ''Book deleted'')) (initial_client\<lparr>books := initial_books\<rparr>)))
   \<noteq> books (fst (removeBook 2 (Resolved True (Inr ''Book deleted'')) (initial_client\<lparr>books := initial_books\<rparr>)))"
  by (simp add: removeBook_success initial_client_def initial_books_def)

text \<open>
  Claim C6, amended: when a create, update or delete request fails, the mirror is what
  it was and an error toast is set. When it succeeds, create appends the record of the
  response and update replaces the records that have the id of the response's record by
  that record, whatever the payload was; delete removes the records whose id is the id
  requested and does not read the body of the response.
\<close>

theorem mirror_follows_server:
  "(failed_json r \<longrightarrow>
      books (fst (createBook payload r st)) = books st \<and>
      (\<exists>m. toast (fst (createBook payload r st)) = Some \<lparr>toast_type = Error, message = m\<rparr>) \<and>
      books (fst (updateBook edited r st)) = books st \<and>
      (\<exists>m. toast (fst (updateBook edited r st)) = Some \<lparr>toast_type = Error, message = m\<rparr>)) \<and>
   (failed r' \<longrightarrow>
      books (fst (removeBook i r' st)) = books st \<and>
      (\<exists>m. toast (fst (removeBook i r' st)) = Some \<lparr>toast_type = Error, message = m\<rparr>)) \<and>
   books (fst (createBook payload (Resolved True (Inr created)) st)) = books st @ [created] \<and>
   books (fst (updateBook edited (Resolved True (Inr updated)) st))
     = map (\<lambda>b. if book_id b = book_id updated then updated else b) (books st) \<and>
   books (fst (removeBook i (Resolved True json) st)) = filter (\<lambda>b. book_id b \<noteq> i) (books st) \<and>
   toast (fst (createBook payload (Resolved True (Inr created)) st))
     = Some \<lparr>toast_type = Success, message = ''Book added''\<rparr> \<and>
   toast (fst (updateBook edited (Resolved True (Inr updated)) st))
     = Some \<lparr>toast_type = Success, message = ''Book updated''\<rparr> \<and>
   toast (fst (removeBook i (Resolved True json) st))
     = Some \<lparr>toast_type = Success, message = ''Book deleted''\<rparr>"
proof (intro conjI impI)
  assume f: "failed_json r"
  from createBook_failure [OF f]
  show "books (fst (createBook payload r st)) = books st"
    and "\<exists>m. toast (fst (createBook payload r st)) = Some \<lparr>toast_type = Error, message = m\<rparr>"
    by simp_all
  from updateBook_failure [OF f]
  show "books (fst (updateBook edited r st)) = books st"
    and "\<exists>m. toast (fst (updateBook edited r st)) = Some \<lparr>toast_type = Error, message = m\<rparr>"
    by simp_all
next
  assume f: "failed r'"
  from removeBook_failure [OF f]
  show "books (fst (removeBook i r' st)) = books st"
    and "\<exists>m. toast (fst (removeBook i r' st)) = Some \<lparr>toast_type = Error, message = m\<rparr>"
    by simp_all
qed (simp_all add: createBook_success updateBook_success removeBook_success)

theorem mirror_follows_server_witness:
  "failed_json (Resolved False (Inr \<lparr>book_id = 0, title = [], author = []\<rparr>)) \<and>
   failed (Rejected ''Failed to fetch'' :: string fetch_result) \<and>
   books (fst (createBook \<lparr>draft_title = ''Dune'', draft_author = ''Frank Herbert''\<rparr>
            (Resolved False (Inr \<lparr>book_id = 0, title = [], author = []\<rparr>))
            (initial_client\<lparr>books := initial_books\<rparr>))) = initial_books \<and>
   books (fst (removeBook 1 (Rejected ''Failed to fetch'' :: string fetch_result)
            (initial_client\<lparr>books := initial_books\<rparr>))) = initial_books \<and>
   books (fst (createBook \<lparr>draft_title = ''Dune'', draft_author = ''Frank Herbert''\<rparr>
            (Resolved True (Inr \<lparr>book_id = 1700000000000, title = ''Dune'', author = ''Frank Herbert''\<rparr>))
            (initial_client\<lparr>books := initial_books\<rparr>)))
     = initial_books @ [\<lparr>book_id = 1700000000000, title = ''Dune'', author = ''Frank Herbert''\<rparr>]"
proof -
  let ?st = "initial_client\<lparr>books := initial_books\<rparr>"
  let ?bad = "Resolved False (Inr \<lparr>book_id = 0, title = [], author = []\<rparr>) :: string book fetch_result"
  let ?rej = "Rejected ''Failed to fetch'' :: string fetch_result"
  have f1: "failed_json ?bad" and f2: "failed ?rej"
    by simp_all
  from mirror_follows_server [of ?bad "\<lparr>draft_title = ''Dune'', draft_author = ''Frank Herbert''\<rparr>" ?st
      _ ?rej 1 "\<lparr>book_id = 1700000000000, title = ''Dune'', author = ''Frank Herbert''\<rparr>"] f1 f2
  have "books (fst (createBook \<lparr>draft_title = ''Dune'', draft_author = ''Frank Herbert''\<rparr> ?bad ?st)) = books ?st"
    and "books (fst (removeBook 1 ?rej ?st)) = books ?st"
    and "books (fst (createBook \<lparr>draft_title = ''Dune'', draft_author = ''Frank Herbert''\<rparr>
            (Resolved True (Inr \<lparr>book_id = 1700000000000, title = ''Dune'', author = ''Frank Herbert''\<rparr>)) ?st))
         = books ?st @ [\<lparr>book_id = 1700000000000, title = ''Dune'', author = ''Frank Herbert''\<rparr>]"
    by blast+
  with f1 f2 show ?thesis
    by (simp add: initial_client_def)
qed

end
